theory Spec2Isabelle
  imports Complex_Main "HOL-Library.Sublist"
begin

section \<open>The order-composition screen \<open>FoodDetails\<close>\<close>

text \<open>
  The source is one React function component, \<open>src/pages/FoodDetails/index.tsx\<close>.
  Its state is the four \<open>useState\<close> cells \<open>food\<close>, \<open>extras\<close>, \<open>isFavorite\<close> and
  \<open>foodQuantity\<close>; its operations are the two effects (\<open>loadFood\<close>, \<open>checkFavorite\<close>),
  the six handlers and the memoised \<open>cartTotal\<close>.

  Conventions of the embedding:
  \<^item> the interfaces \<open>Extra\<close> and \<open>Food\<close> are records; the fields \<open>id\<close>, \<open>name\<close>,
    \<open>value\<close> and \<open>extras\<close>, which the two interfaces and the state share, carry the
    interface as a prefix (\<open>extra_id\<close>, \<open>food_id\<close>, \<open>food_extras\<close>, ...);
  \<^item> \<open>id\<close> is a number used only with \<open>===\<close>, quantities are counters that move by one:
    both are \<open>int\<close>. Prices are JavaScript numbers and are modelled as \<open>real\<close>, so
    the rounding of IEEE doubles is not part of the model;
  \<^item> \<open>undefined\<close> is \<open>None\<close>: the initial \<open>food\<close>, written \<open>{} as Food\<close>, is the
    object all of whose fields are \<open>undefined\<close>, and an array read out of range is
    \<open>undefined\<close>; a number that may be \<open>NaN\<close> is a \<open>real option\<close> with \<open>None\<close> for \<open>NaN\<close>;
  \<^item> reading a property of \<open>undefined\<close> throws a \<open>TypeError\<close>: such a handler returns
    \<open>Inl TypeError\<close>;
  \<^item> a promise that a handler awaits is the parameter \<open>'a response\<close> of the handler:
    \<open>Resolved\<close> with the data, or \<open>Rejected\<close>. What an asynchronous function does
    after its \<open>await\<close> happens in the state of the screen when the promise settles;
    what it has read before the \<open>await\<close> is a parameter of its own;
  \<^item> a handler runs in the closure of the render of the current state (React renders
    again after every event that sets state), so the \<open>extras\<close>, \<open>foodQuantity\<close> and
    \<open>isFavorite\<close> a handler reads are those of the state it updates;
  \<^item> \<open>formatValue\<close> is imported from \<open>utils/formatValue\<close>, which is outside the
    source given: it is a parameter of every definition that calls it.
\<close>

subsection \<open>Data\<close>

record Extra =
  extra_id :: int
  extra_name :: string
  extra_value :: real
  quantity :: int

record Food =
  food_id :: int
  food_name :: string
  description :: string
  price :: real
  image_url :: string
  formattedPrice :: string
  food_extras :: "Extra list"

record state =
  food :: "Food option"
  extras :: "Extra list"
  isFavorite :: bool
  foodQuantity :: int

datatype error = TypeError

datatype 'a response = Resolved 'a | Rejected

type_synonym number = "real option"

text \<open>The values of the four \<open>useState\<close> calls at mount (lines 64 to 67).\<close>

definition initial_state :: state where
  "initial_state = \<lparr>food = None, extras = [], isFavorite = False, foodQuantity = 1\<rparr>"

subsection \<open>Array primitives of JavaScript\<close>

text \<open>\<open>Array.prototype.findIndex\<close>: the index of the first element that satisfies the
  predicate, \<open>-1\<close> when there is none.\<close>

fun findIndex :: "('a \<Rightarrow> bool) \<Rightarrow> 'a list \<Rightarrow> int" where
  "findIndex p [] = -1"
| "findIndex p (x # xs) =
     (if p x then 0 else (let r = findIndex p xs in if r < 0 then -1 else r + 1))"

text \<open>\<open>arr[i]\<close>: \<open>undefined\<close> outside \<open>0 .. length - 1\<close>, in particular at \<open>-1\<close>.\<close>

definition elemAt :: "'a list \<Rightarrow> int \<Rightarrow> 'a option" where
  "elemAt xs i = (if 0 \<le> i \<and> i < int (length xs) then Some (xs ! nat i) else None)"

text \<open>\<open>Array.prototype.slice(start, end)\<close>: a negative bound counts from the end, and
  both bounds are clipped to \<open>0 .. length\<close>.\<close>

definition slice :: "'a list \<Rightarrow> int \<Rightarrow> int \<Rightarrow> 'a list" where
  "slice xs start end =
     (let n = int (length xs);
          a = (if start < 0 then max (n + start) 0 else min start n);
          b = (if end < 0 then max (n + end) 0 else min end n)
      in take (nat (b - a)) (drop (nat a) xs))"

subsection \<open>The extras ledger (lines 121 to 161)\<close>

text \<open>The function passed to \<open>setExtras\<close> by \<open>handleIncrementExtra\<close>. The read
  \<open>oldState[extraIndex].quantity\<close> throws when the element is \<open>undefined\<close>.\<close>

definition incrementUpdater :: "int \<Rightarrow> Extra list \<Rightarrow> error + Extra list" where
  "incrementUpdater extraIndex oldState =
     (case elemAt oldState extraIndex of
        None \<Rightarrow> Inl TypeError
      | Some old \<Rightarrow>
          (let increasedQuantity = quantity old + 1;
               newExtra = old\<lparr>quantity := increasedQuantity\<rparr>
           in Inr (slice oldState 0 extraIndex @ [newExtra]
                   @ slice oldState (extraIndex + 1) (int (length oldState)))))"

text \<open>The function passed to \<open>setExtras\<close> by \<open>handleDecrementExtra\<close>.\<close>

definition decrementUpdater :: "int \<Rightarrow> Extra list \<Rightarrow> error + Extra list" where
  "decrementUpdater extraIndex oldState =
     (case elemAt oldState extraIndex of
        None \<Rightarrow> Inl TypeError
      | Some old \<Rightarrow>
          (let increasedQuantity = quantity old - 1;
               newExtra = old\<lparr>quantity := increasedQuantity\<rparr>
           in Inr (slice oldState 0 extraIndex @ [newExtra]
                   @ slice oldState (extraIndex + 1) (int (length oldState)))))"

text \<open>\<open>setExtras(updater)\<close>: React applies the updater to the current ledger when it
  renders next; an exception the updater throws there is an error of the render, and no
  new state results.\<close>

definition setExtras :: "(Extra list \<Rightarrow> error + Extra list) \<Rightarrow> state \<Rightarrow> error + state" where
  "setExtras updater s =
     (case updater (extras s) of Inl e \<Rightarrow> Inl e | Inr xs \<Rightarrow> Inr (s\<lparr>extras := xs\<rparr>))"

definition handleIncrementExtra :: "int \<Rightarrow> state \<Rightarrow> error + state" where
  "handleIncrementExtra i s =
     (let extraIndex = findIndex (\<lambda>item. extra_id item = i) (extras s)
      in setExtras (incrementUpdater extraIndex) s)"

text \<open>The guard reads \<open>extras[extraIndex].quantity\<close> in the handler itself, before any
  update is queued: an index without an element throws there.\<close>

definition handleDecrementExtra :: "int \<Rightarrow> state \<Rightarrow> error + state" where
  "handleDecrementExtra i s =
     (let extraIndex = findIndex (\<lambda>item. extra_id item = i) (extras s)
      in case elemAt (extras s) extraIndex of
           None \<Rightarrow> Inl TypeError
         | Some x \<Rightarrow>
             if quantity x > 0 then setExtras (decrementUpdater extraIndex) s else Inr s)"

subsection \<open>The food quantity (lines 163 to 173)\<close>

definition handleIncrementFood :: "state \<Rightarrow> state" where
  "handleIncrementFood s = s\<lparr>foodQuantity := foodQuantity s + 1\<rparr>"

definition handleDecrementFood :: "state \<Rightarrow> state" where
  "handleDecrementFood s =
     (if foodQuantity s > 1 then s\<lparr>foodQuantity := foodQuantity s - 1\<rparr> else s)"

subsection \<open>Loading the food (lines 74 to 101)\<close>

text \<open>\<open>foodResponse\<close> is the outcome of \<open>await api.get(`foods/${id}`)\<close>. A rejection
  jumps to the \<open>catch\<close>, which only logs. On success \<open>setFood\<close> and \<open>setExtras\<close> are
  called, in this order; \<open>setFoodQuantity\<close> is not called.\<close>

definition loadFood :: "(number \<Rightarrow> string) \<Rightarrow> Food response \<Rightarrow> state \<Rightarrow> state" where
  "loadFood formatValue foodResponse s =
     (case foodResponse of
        Rejected \<Rightarrow> s
      | Resolved foodFromApi \<Rightarrow>
          (let foodExtas = map (\<lambda>item. item\<lparr>quantity := 0\<rparr>) (food_extras foodFromApi);
               s1 = s\<lparr>food := Some (foodFromApi\<lparr>formattedPrice :=
                                          formatValue (Some (price foodFromApi))\<rparr>)\<rparr>
           in s1\<lparr>extras := foodExtas\<rparr>))"

subsection \<open>The favorite flag (lines 103 to 119 and 175 to 188)\<close>

text \<open>The effect runs after every render in which \<open>food\<close> has changed, and its
  \<open>checkFavorite\<close> keeps the \<open>food\<close> of that render: \<open>capturedFood\<close>, which need not be
  the food of the state \<open>s\<close> in which the response settles. \<open>favoriteResponse\<close> is the
  outcome of \<open>await api.get('favorites')\<close>. In \<open>item.id === food.id\<close> the right side
  is \<open>undefined\<close> while the captured \<open>food\<close> is \<open>{}\<close>, and no number is equal to it.\<close>

definition checkFavorite :: "Food option \<Rightarrow> Food list response \<Rightarrow> state \<Rightarrow> state" where
  "checkFavorite capturedFood favoriteResponse s =
     (case favoriteResponse of
        Rejected \<Rightarrow> s
      | Resolved data \<Rightarrow>
          (let favoriteArr =
                 filter (\<lambda>item. Some (food_id item) = map_option food_id capturedFood) data
           in s\<lparr>isFavorite := (length favoriteArr > 0)\<rparr>))"

text \<open>The payload of \<open>api.post('orders', { ...food, extras })\<close>: the fields of \<open>food\<close>
  with \<open>extras\<close> replaced by the ledger; while \<open>food\<close> is \<open>{}\<close> the object has the
  field \<open>extras\<close> alone.\<close>

datatype order = Order Food | OrderOfEmptyFood "Extra list"

datatype request =
    DeleteFavorite "int option"
  | PostFavorite "Food option"
  | PostOrder order

text \<open>The remote call \<open>toggleFavorite\<close> awaits: \<open>api.delete(`favorites/${food.id}`)\<close>
  or \<open>api.post('favorites', food)\<close>.\<close>

definition toggleFavorite_request :: "state \<Rightarrow> request" where
  "toggleFavorite_request s =
     (if isFavorite s then DeleteFavorite (map_option food_id (food s))
      else PostFavorite (food s))"

text \<open>What \<open>toggleFavorite\<close> does when the icon is pressed, up to its \<open>await\<close>: the
  remote call is issued, and no setter has been called. The second component is the
  state of the screen while the write is pending.\<close>

definition toggleFavorite_press :: "state \<Rightarrow> request \<times> state" where
  "toggleFavorite_press s = (toggleFavorite_request s, s)"

text \<open>What \<open>toggleFavorite\<close> does once the awaited call has settled, in the state \<open>s\<close> of
  the screen at that moment: \<open>setIsFavorite(oldState => !oldState)\<close> is the statement
  after the \<open>await\<close>, inside the \<open>try\<close>; a rejection skips it.\<close>

definition toggleFavorite :: "unit response \<Rightarrow> state \<Rightarrow> state" where
  "toggleFavorite writeResponse s =
     (case writeResponse of
        Rejected \<Rightarrow> s
      | Resolved _ \<Rightarrow> s\<lparr>isFavorite := \<not> isFavorite s\<rparr>)"

subsection \<open>The total (lines 190 to 199)\<close>

text \<open>The callback of \<open>useMemo\<close>. \<open>food.price\<close> is \<open>undefined\<close> while \<open>food\<close> is \<open>{}\<close>,
  and the product and the sum are then \<open>NaN\<close>.\<close>

definition cartTotal :: "(number \<Rightarrow> string) \<Rightarrow> state \<Rightarrow> string" where
  "cartTotal formatValue s =
     (let extraTotal =
            foldl (\<lambda>cumulator extraItem.
                     cumulator + real_of_int (quantity extraItem) * extra_value extraItem)
                  0 (extras s);
          foodTotal = (case food s of
                         None \<Rightarrow> None
                       | Some f \<Rightarrow> Some (price f * real_of_int (foodQuantity s)))
      in formatValue (case foodTotal of None \<Rightarrow> None | Some t \<Rightarrow> Some (extraTotal + t)))"

text \<open>The dependency array \<open>[extras, food, foodQuantity]\<close>.\<close>

definition cartTotal_deps :: "state \<Rightarrow> Extra list \<times> Food option \<times> int" where
  "cartTotal_deps s = (extras s, food s, foodQuantity s)"

text \<open>\<open>useMemo\<close> keeps the dependencies and the value of the last computation, and
  computes again when a dependency has changed. React compares the dependencies by
  identity; state values are never mutated in place here, so identical dependencies are
  equal ones, and comparing by equality reuses the stored value at least as often.
  The first argument is the value the callback returns if it is called.\<close>

definition useMemo :: "'v \<Rightarrow> 'd \<Rightarrow> ('d \<times> 'v) option \<Rightarrow> 'v \<times> ('d \<times> 'v) option" where
  "useMemo v deps memo =
     (case memo of
        None \<Rightarrow> (v, Some (deps, v))
      | Some (d, cached) \<Rightarrow> if d = deps then (cached, memo) else (v, Some (deps, v)))"

text \<open>One render of the component in state \<open>s\<close>: the total shown, and the memo cell
  after the render.\<close>

definition render_cartTotal ::
  "(number \<Rightarrow> string) \<Rightarrow> state \<Rightarrow> ((Extra list \<times> Food option \<times> int) \<times> string) option
     \<Rightarrow> string \<times> ((Extra list \<times> Food option \<times> int) \<times> string) option" where
  "render_cartTotal formatValue s memo = useMemo (cartTotal formatValue s) (cartTotal_deps s) memo"

text \<open>The memo cell after the component has rendered the states of a list, one after
  the other.\<close>

fun renders ::
  "(number \<Rightarrow> string) \<Rightarrow> state list \<Rightarrow> ((Extra list \<times> Food option \<times> int) \<times> string) option
     \<Rightarrow> ((Extra list \<times> Food option \<times> int) \<times> string) option" where
  "renders formatValue [] memo = memo"
| "renders formatValue (s # ss) memo =
     renders formatValue ss (snd (render_cartTotal formatValue s memo))"

subsection \<open>Submitting the order (lines 201 to 208)\<close>

definition handleFinishOrder_request :: "state \<Rightarrow> request" where
  "handleFinishOrder_request s =
     PostOrder (case food s of
                  None \<Rightarrow> OrderOfEmptyFood (extras s)
                | Some f \<Rightarrow> Order (f\<lparr>food_extras := extras s\<rparr>))"

text \<open>Neither branch of the \<open>try\<close> sets state.\<close>

definition handleFinishOrder :: "unit response \<Rightarrow> state \<Rightarrow> state" where
  "handleFinishOrder orderResponse s = (case orderResponse of Rejected \<Rightarrow> s | Resolved _ \<Rightarrow> s)"

subsection \<open>Sessions\<close>

text \<open>What can happen to a mounted screen: a remote call of an effect or a handler
  settles, or the user presses one of the buttons. \<open>CheckFavorite\<close> carries the food its
  effect has captured; \<open>PressFavorite\<close> is the press on the favorite icon, and
  \<open>ToggleFavorite\<close> the settling of a write that such a press has issued. A handler that
  throws ends the session with the error.\<close>

datatype event =
    LoadFood "Food response"
  | CheckFavorite "Food option" "Food list response"
  | IncrementExtra int
  | DecrementExtra int
  | IncrementFood
  | DecrementFood
  | PressFavorite
  | ToggleFavorite "unit response"
  | FinishOrder "unit response"

fun step :: "(number \<Rightarrow> string) \<Rightarrow> event \<Rightarrow> state \<Rightarrow> error + state" where
  "step formatValue (LoadFood r) s = Inr (loadFood formatValue r s)"
| "step formatValue (CheckFavorite capturedFood r) s = Inr (checkFavorite capturedFood r s)"
| "step formatValue (IncrementExtra i) s = handleIncrementExtra i s"
| "step formatValue (DecrementExtra i) s = handleDecrementExtra i s"
| "step formatValue IncrementFood s = Inr (handleIncrementFood s)"
| "step formatValue DecrementFood s = Inr (handleDecrementFood s)"
| "step formatValue PressFavorite s = Inr (snd (toggleFavorite_press s))"
| "step formatValue (ToggleFavorite r) s = Inr (toggleFavorite r s)"
| "step formatValue (FinishOrder r) s = Inr (handleFinishOrder r s)"

fun run :: "(number \<Rightarrow> string) \<Rightarrow> event list \<Rightarrow> state \<Rightarrow> error + state" where
  "run formatValue [] s = Inr s"
| "run formatValue (ev # evs) s =
     (case step formatValue ev s of Inl e \<Rightarrow> Inl e | Inr t \<Rightarrow> run formatValue evs t)"

text \<open>A sequence of presses on the plus and minus buttons of the extra \<open>i\<close>.\<close>

datatype ledger_call = Increment | Decrement

fun ledger_calls :: "int \<Rightarrow> ledger_call list \<Rightarrow> state \<Rightarrow> error + state" where
  "ledger_calls i [] s = Inr s"
| "ledger_calls i (c # cs) s =
     (case (case c of Increment \<Rightarrow> handleIncrementExtra i s
                    | Decrement \<Rightarrow> handleDecrementExtra i s) of
        Inl e \<Rightarrow> Inl e
      | Inr t \<Rightarrow> ledger_calls i cs t)"

text \<open>The number of increments minus the number of decrements of a sequence.\<close>

definition net :: "ledger_call list \<Rightarrow> int" where
  "net cs = int (count_list cs Increment) - int (count_list cs Decrement)"

text \<open>The ledger as section 4.1 of the specification words it, on one quantity:
  \<open>quantity += 1\<close>, and \<open>quantity = max(0, quantity - 1)\<close>.\<close>

fun ledger_quantity :: "ledger_call list \<Rightarrow> int \<Rightarrow> int" where
  "ledger_quantity [] q = q"
| "ledger_quantity (Increment # cs) q = ledger_quantity cs (q + 1)"
| "ledger_quantity (Decrement # cs) q = ledger_quantity cs (max 0 (q - 1))"

subsection \<open>The scenario of section 8 of the specification\<close>

text \<open>The food \<open>{id: 1, unitPrice: 10.00, extras: [{id: 11, unitValue: 2.00}]}\<close> as
  the remote service sends it; the fields the scenario leaves open are empty strings.\<close>

definition scenario_food :: Food where
  "scenario_food =
     \<lparr>food_id = 1, food_name = [], description = [], price = 10, image_url = [],
      formattedPrice = [],
      food_extras = [\<lparr>extra_id = 11, extra_name = [], extra_value = 2, quantity = 0\<rparr>]\<rparr>"

text \<open>A formatter to run the scenario with: it knows the two amounts that occur.\<close>

definition scenario_formatValue :: "number \<Rightarrow> string" where
  "scenario_formatValue n =
     (if n = Some 26 then ''26.00'' else if n = Some 10 then ''10.00'' else [])"

text \<open>The state once the food of the scenario is loaded into a fresh screen.\<close>

definition scenario_state :: state where
  "scenario_state = loadFood scenario_formatValue (Resolved scenario_food) initial_state"

text \<open>The state of the scenario after three increments of the extra 11 and one of the
  food quantity.\<close>

definition scenario_order :: state where
  "scenario_order =
     \<lparr>food = Some (scenario_food\<lparr>formattedPrice := ''10.00''\<rparr>),
      extras = [\<lparr>extra_id = 11, extra_name = [], extra_value = 2, quantity = 3\<rparr>],
      isFavorite = False, foodQuantity = 2\<rparr>"

section \<open>Properties\<close>

subsection \<open>Arrays\<close>

lemma findIndex_ge: "- 1 \<le> findIndex p xs"
  by (induction xs) (auto simp: Let_def)

lemma findIndex_absent: "(\<forall>x\<in>set xs. \<not> p x) \<Longrightarrow> findIndex p xs = - 1"
  by (induction xs) (auto simp: Let_def)

lemma findIndex_found:
  "findIndex p xs = int k \<Longrightarrow> k < length xs \<and> p (xs ! k) \<and> (\<forall>j<k. \<not> p (xs ! j))"
proof (induction xs arbitrary: k)
  case Nil
  then show ?case by simp
next
  case (Cons x xs)
  show ?case
  proof (cases "p x")
    case True
    with Cons.prems show ?thesis by simp
  next
    case False
    with Cons.prems have r: "findIndex p xs = int k - 1" and nn: "\<not> findIndex p xs < 0"
      by (auto simp: Let_def split: if_splits)
    then obtain k' where k: "k = Suc k'"
      by (cases k) auto
    with r have "findIndex p xs = int k'" by simp
    from Cons.IH [OF this] False k show ?thesis
      by (auto simp: nth_Cons less_Suc_eq_0_disj split: nat.splits)
  qed
qed

lemma findIndex_present: "\<exists>x\<in>set xs. p x \<Longrightarrow> \<exists>k. findIndex p xs = int k"
proof (induction xs)
  case Nil
  then show ?case by simp
next
  case (Cons x xs)
  show ?case
  proof (cases "p x")
    case True
    then have "findIndex p (x # xs) = int 0" by simp
    then show ?thesis by blast
  next
    case False
    with Cons.prems have "\<exists>x\<in>set xs. p x" by simp
    from Cons.IH [OF this] obtain k where "findIndex p xs = int k" ..
    with False have "findIndex p (x # xs) = int (Suc k)" by (simp add: Let_def)
    then show ?thesis by blast
  qed
qed

lemma findIndex_cong_map: "map p xs = map p ys \<Longrightarrow> findIndex p xs = findIndex p ys"
proof (induction xs arbitrary: ys)
  case Nil
  then show ?case by simp
next
  case (Cons x xs)
  then obtain y ys' where ys: "ys = y # ys'" by (cases ys) auto
  with Cons.prems have "p x = p y" "map p xs = map p ys'" by simp_all
  with Cons.IH [of ys'] ys show ?case by simp
qed

lemma slice_prefix: "k \<le> length xs \<Longrightarrow> slice xs 0 (int k) = take k xs"
  by (simp add: slice_def Let_def min_def)

lemma slice_suffix: "k \<le> length xs \<Longrightarrow> slice xs (int k) (int (length xs)) = drop k xs"
  by (simp add: slice_def Let_def min_def)

lemma elemAt_nat: "k < length xs \<Longrightarrow> elemAt xs (int k) = Some (xs ! k)"
  by (simp add: elemAt_def)

lemma elemAt_neg: "i < 0 \<Longrightarrow> elemAt xs i = None"
  by (simp add: elemAt_def)

lemma incrementUpdater_in_range:
  assumes "k < length xs"
  shows "incrementUpdater (int k) xs = Inr (xs[k := (xs ! k)\<lparr>quantity := quantity (xs ! k) + 1\<rparr>])"
proof -
  have "slice xs (int k + 1) (int (length xs)) = drop (Suc k) xs"
    using slice_suffix [of "Suc k" xs] assms by (simp add: add.commute)
  with assms show ?thesis
    by (simp add: incrementUpdater_def elemAt_nat slice_prefix upd_conv_take_nth_drop Let_def)
qed

lemma decrementUpdater_in_range:
  assumes "k < length xs"
  shows "decrementUpdater (int k) xs = Inr (xs[k := (xs ! k)\<lparr>quantity := quantity (xs ! k) - 1\<rparr>])"
proof -
  have "slice xs (int k + 1) (int (length xs)) = drop (Suc k) xs"
    using slice_suffix [of "Suc k" xs] assms by (simp add: add.commute)
  with assms show ?thesis
    by (simp add: decrementUpdater_def elemAt_nat slice_prefix upd_conv_take_nth_drop Let_def)
qed

lemma handleIncrementExtra_found:
  assumes "findIndex (\<lambda>item. extra_id item = i) (extras s) = int k"
  shows "handleIncrementExtra i s =
           Inr (s\<lparr>extras := (extras s)[k := (extras s ! k)\<lparr>quantity := quantity (extras s ! k) + 1\<rparr>]\<rparr>)"
proof -
  from findIndex_found [OF assms] have "k < length (extras s)" by simp
  then show ?thesis
    by (simp add: handleIncrementExtra_def assms setExtras_def incrementUpdater_in_range)
qed

lemma handleDecrementExtra_found:
  assumes "findIndex (\<lambda>item. extra_id item = i) (extras s) = int k"
  shows "handleDecrementExtra i s =
           (if quantity (extras s ! k) > 0
            then Inr (s\<lparr>extras := (extras s)[k := (extras s ! k)\<lparr>quantity := quantity (extras s ! k) - 1\<rparr>]\<rparr>)
            else Inr s)"
proof -
  from findIndex_found [OF assms] have "k < length (extras s)" by simp
  then show ?thesis
    by (simp add: handleDecrementExtra_def assms setExtras_def decrementUpdater_in_range elemAt_nat)
qed

lemma findIndex_update_quantity:
  "findIndex (\<lambda>item. extra_id item = i) (xs[k := (xs ! k)\<lparr>quantity := q\<rparr>])
     = findIndex (\<lambda>item. extra_id item = i) xs"
proof (rule findIndex_cong_map, rule nth_equalityI)
  show "length (map (\<lambda>item. extra_id item = i) (xs[k := (xs ! k)\<lparr>quantity := q\<rparr>]))
          = length (map (\<lambda>item. extra_id item = i) xs)"
    by simp
next
  fix j
  assume "j < length (map (\<lambda>item. extra_id item = i) (xs[k := (xs ! k)\<lparr>quantity := q\<rparr>]))"
  then have "j < length xs" by simp
  then show "map (\<lambda>item. extra_id item = i) (xs[k := (xs ! k)\<lparr>quantity := q\<rparr>]) ! j
          = map (\<lambda>item. extra_id item = i) xs ! j"
    by (cases "j = k") simp_all
qed

subsection \<open>Sequences of ledger calls\<close>

lemma net_simps [simp]:
  "net [] = 0"
  "net (Increment # cs) = net cs + 1"
  "net (Decrement # cs) = net cs - 1"
  by (simp_all add: net_def)

lemma Max_suffixes_Cons:
  "Max (net ` set (suffixes (c # cs))) = max (net (c # cs)) (Max (net ` set (suffixes cs)))"
proof -
  have "set (suffixes cs) \<noteq> {}" by simp
  then show ?thesis by (simp add: Max_insert)
qed

lemma net_le_Max_suffixes: "net cs \<le> Max (net ` set (suffixes cs))"
  by (rule Max_ge) (auto simp: in_set_suffixes)

lemma ledger_quantity_suffix_max:
  "0 \<le> q \<Longrightarrow> ledger_quantity cs q = max (q + net cs) (Max (net ` set (suffixes cs)))"
proof (induction cs q rule: ledger_quantity.induct)
  case (1 q)
  then show ?case by simp
next
  case (2 cs q)
  define M where "M = Max (net ` set (suffixes cs))"
  from "2.prems" have "ledger_quantity cs (q + 1) = max (q + 1 + net cs) M"
    unfolding M_def by (intro "2.IH") simp
  moreover have "Max (net ` set (suffixes (Increment # cs))) = max (net cs + 1) M"
    unfolding M_def Max_suffixes_Cons by simp
  ultimately show ?case
    using "2.prems" by (simp add: max_def)
next
  case (3 cs q)
  define M where "M = Max (net ` set (suffixes cs))"
  have ih: "ledger_quantity cs (max 0 (q - 1)) = max (max 0 (q - 1) + net cs) M"
    unfolding M_def by (rule "3.IH") simp
  have le: "net cs \<le> M"
    unfolding M_def by (rule net_le_Max_suffixes)
  have "Max (net ` set (suffixes (Decrement # cs))) = max (net cs - 1) M"
    unfolding M_def Max_suffixes_Cons by simp
  with ih le "3.prems" show ?case
    by (simp add: max_def)
qed

lemma ledger_quantity_nonneg: "0 \<le> q \<Longrightarrow> 0 \<le> ledger_quantity cs q"
  by (induction cs q rule: ledger_quantity.induct) simp_all

lemma ledger_calls_refines:
  assumes "findIndex (\<lambda>item. extra_id item = i) (extras s) = int k"
    and "0 \<le> quantity (extras s ! k)"
  shows "\<exists>s'. ledger_calls i cs s = Inr s'
           \<and> findIndex (\<lambda>item. extra_id item = i) (extras s') = int k
           \<and> quantity (extras s' ! k) = ledger_quantity cs (quantity (extras s ! k))"
  using assms
proof (induction cs arbitrary: s)
  case Nil
  then show ?case by simp
next
  case (Cons c cs)
  from findIndex_found [OF Cons.prems(1)] have k: "k < length (extras s)" by simp
  let ?q = "quantity (extras s ! k)"
  show ?case
  proof (cases c)
    case Increment
    let ?t = "s\<lparr>extras := (extras s)[k := (extras s ! k)\<lparr>quantity := ?q + 1\<rparr>]\<rparr>"
    have t: "handleIncrementExtra i s = Inr ?t"
      by (rule handleIncrementExtra_found [OF Cons.prems(1)])
    have idx: "findIndex (\<lambda>item. extra_id item = i) (extras ?t) = int k"
      using Cons.prems(1) by (simp add: findIndex_update_quantity)
    have q: "quantity (extras ?t ! k) = ?q + 1" using k by simp
    with Cons.prems(2) have "0 \<le> quantity (extras ?t ! k)" by simp
    from Cons.IH [OF idx this] q t Increment show ?thesis by simp
  next
    case Decrement
    show ?thesis
    proof (cases "0 < ?q")
      case True
      let ?t = "s\<lparr>extras := (extras s)[k := (extras s ! k)\<lparr>quantity := ?q - 1\<rparr>]\<rparr>"
      have t: "handleDecrementExtra i s = Inr ?t"
        using handleDecrementExtra_found [OF Cons.prems(1)] True by simp
      have idx: "findIndex (\<lambda>item. extra_id item = i) (extras ?t) = int k"
        using Cons.prems(1) by (simp add: findIndex_update_quantity)
      have q: "quantity (extras ?t ! k) = ?q - 1" using k by simp
      with True have "0 \<le> quantity (extras ?t ! k)" by simp
      from Cons.IH [OF idx this] q t Decrement True show ?thesis by (simp add: max_def)
    next
      case False
      with Cons.prems(2) have z: "?q = 0" by simp
      have t: "handleDecrementExtra i s = Inr s"
        using handleDecrementExtra_found [OF Cons.prems(1)] False by simp
      from Cons.IH [OF Cons.prems] t Decrement z show ?thesis by simp
    qed
  qed
qed

subsection \<open>The total\<close>

lemma foldl_extraTotal:
  "foldl (\<lambda>cumulator extraItem. cumulator + g extraItem) a xs = a + (\<Sum>x\<leftarrow>xs. g x)"
  for a :: real
  by (induction xs arbitrary: a) (simp_all add: add.assoc)

lemma cartTotal_loaded:
  "food s = Some f \<Longrightarrow>
     cartTotal formatValue s =
       formatValue (Some (real_of_int (foodQuantity s) * price f
                          + (\<Sum>x\<leftarrow>extras s. real_of_int (quantity x) * extra_value x)))"
  by (simp add: cartTotal_def foldl_extraTotal Let_def add.commute mult.commute)

lemma cartTotal_only_deps:
  "cartTotal_deps s = cartTotal_deps t \<Longrightarrow> cartTotal formatValue s = cartTotal formatValue t"
  by (simp add: cartTotal_deps_def cartTotal_def cong: option.case_cong)

lemma render_memo_sound:
  assumes "\<And>d v t. memo = Some (d, v) \<Longrightarrow> cartTotal_deps t = d \<Longrightarrow> v = cartTotal formatValue t"
    and "snd (render_cartTotal formatValue s memo) = Some (d, v)"
    and "cartTotal_deps t = d"
  shows "v = cartTotal formatValue t"
proof (cases memo)
  case None
  with assms(2,3) show ?thesis
    by (auto simp: render_cartTotal_def useMemo_def intro: cartTotal_only_deps)
next
  case (Some dv)
  obtain d0 v0 where dv: "dv = (d0, v0)" by (cases dv)
  show ?thesis
  proof (cases "d0 = cartTotal_deps s")
    case True
    with Some dv assms(2) have "memo = Some (d, v)"
      by (simp add: render_cartTotal_def useMemo_def)
    from assms(1) [OF this assms(3)] show ?thesis .
  next
    case False
    with Some dv assms(2,3) show ?thesis
      by (auto simp: render_cartTotal_def useMemo_def intro: cartTotal_only_deps)
  qed
qed

lemma renders_sound:
  assumes "\<And>d v t. memo = Some (d, v) \<Longrightarrow> cartTotal_deps t = d \<Longrightarrow> v = cartTotal formatValue t"
    and "renders formatValue ss memo = Some (d, v)"
    and "cartTotal_deps t = d"
  shows "v = cartTotal formatValue t"
  using assms
proof (induction ss arbitrary: memo)
  case Nil
  then show ?case by simp
next
  case (Cons s ss)
  show ?case
  proof (rule Cons.IH [of "snd (render_cartTotal formatValue s memo)"])
    fix d' v' t'
    assume "snd (render_cartTotal formatValue s memo) = Some (d', v')" "cartTotal_deps t' = d'"
    with Cons.prems(1) show "v' = cartTotal formatValue t'"
      by (rule render_memo_sound [where memo = memo])
  next
    from Cons.prems(2) show "renders formatValue ss (snd (render_cartTotal formatValue s memo)) = Some (d, v)"
      by simp
  next
    show "cartTotal_deps t = d" by fact
  qed
qed

lemma render_shows_cartTotal:
  "fst (render_cartTotal formatValue s (renders formatValue history None)) = cartTotal formatValue s"
proof (cases "renders formatValue history None")
  case None
  then show ?thesis by (simp add: render_cartTotal_def useMemo_def)
next
  case (Some dv)
  obtain d v where dv: "dv = (d, v)" by (cases dv)
  show ?thesis
  proof (cases "d = cartTotal_deps s")
    case True
    have "v = cartTotal formatValue s"
    proof (rule renders_sound [of None formatValue history d v s])
      show "renders formatValue history None = Some (d, v)" using Some dv by simp
      show "cartTotal_deps s = d" using True by simp
    qed simp
    with Some dv True show ?thesis by (simp add: render_cartTotal_def useMemo_def)
  next
    case False
    with Some dv show ?thesis by (simp add: render_cartTotal_def useMemo_def)
  qed
qed

text \<open>
  C1. In every state with a loaded food, whatever states the component has rendered
  before, the total a render shows is the formatted value of
  \<open>foodQuantity * food.price\<close> plus the sum over the ledger of
  \<open>quantity * value\<close>, computed from the state rendered: the memo cell of \<open>useMemo\<close>
  never yields the total of an earlier state.
\<close>

theorem cartTotal_recomputed:
  assumes "food s = Some f"
  shows "fst (render_cartTotal formatValue s (renders formatValue history None))
           = formatValue (Some (real_of_int (foodQuantity s) * price f
                                + (\<Sum>x\<leftarrow>extras s. real_of_int (quantity x) * extra_value x)))"
  using assms by (simp add: render_shows_cartTotal cartTotal_loaded)

theorem cartTotal_recomputed_witness:
  "run scenario_formatValue
       [LoadFood (Resolved scenario_food), IncrementExtra 11, IncrementExtra 11,
        IncrementExtra 11, IncrementFood] initial_state = Inr scenario_order
   \<and> food scenario_order = Some (scenario_food\<lparr>formattedPrice := ''10.00''\<rparr>)
   \<and> fst (render_cartTotal scenario_formatValue scenario_order
            (renders scenario_formatValue [initial_state, scenario_state] None)) = ''26.00''"
proof -
  have reached: "run scenario_formatValue
       [LoadFood (Resolved scenario_food), IncrementExtra 11, IncrementExtra 11,
        IncrementExtra 11, IncrementFood] initial_state = Inr scenario_order"
    by (simp add: scenario_order_def scenario_food_def scenario_formatValue_def loadFood_def
        initial_state_def handleIncrementFood_def handleIncrementExtra_def setExtras_def
        incrementUpdater_def elemAt_def slice_def)
  have loaded: "food scenario_order = Some (scenario_food\<lparr>formattedPrice := ''10.00''\<rparr>)"
    by (simp add: scenario_order_def)
  from cartTotal_recomputed [OF loaded, of scenario_formatValue "[initial_state, scenario_state]"]
  have "fst (render_cartTotal scenario_formatValue scenario_order
            (renders scenario_formatValue [initial_state, scenario_state] None)) = ''26.00''"
    by (simp add: scenario_order_def scenario_food_def scenario_formatValue_def)
  with reached loaded show ?thesis by simp
qed

subsection \<open>The food quantity\<close>

lemma setExtras_frame:
  "setExtras updater s = Inr t \<Longrightarrow> \<exists>xs. t = s\<lparr>extras := xs\<rparr>"
  by (auto simp: setExtras_def split: sum.splits)

lemma handleIncrementExtra_frame:
  "handleIncrementExtra i s = Inr t \<Longrightarrow> \<exists>xs. t = s\<lparr>extras := xs\<rparr>"
  unfolding handleIncrementExtra_def Let_def by (rule setExtras_frame)

lemma handleDecrementExtra_frame:
  "handleDecrementExtra i s = Inr t \<Longrightarrow> \<exists>xs. t = s\<lparr>extras := xs\<rparr>"
proof -
  assume h: "handleDecrementExtra i s = Inr t"
  let ?k = "findIndex (\<lambda>item. extra_id item = i) (extras s)"
  from h obtain x where x: "elemAt (extras s) ?k = Some x"
    by (auto simp: handleDecrementExtra_def Let_def split: option.splits)
  show ?thesis
  proof (cases "quantity x > 0")
    case True
    with h x have "setExtras (decrementUpdater ?k) s = Inr t"
      by (simp add: handleDecrementExtra_def Let_def)
    then show ?thesis by (rule setExtras_frame)
  next
    case False
    with h x have "t = s" by (simp add: handleDecrementExtra_def Let_def)
    then have "t = s\<lparr>extras := extras s\<rparr>" by simp
    then show ?thesis ..
  qed
qed

lemma step_foodQuantity:
  assumes "step formatValue ev s = Inr t" and "1 \<le> foodQuantity s"
  shows "1 \<le> foodQuantity t"
proof (cases ev)
  case (LoadFood r)
  with assms show ?thesis
    by (auto simp: loadFood_def Let_def split: response.splits)
next
  case (CheckFavorite c r)
  with assms show ?thesis
    by (auto simp: checkFavorite_def Let_def split: response.splits)
next
  case (IncrementExtra i)
  with assms have "handleIncrementExtra i s = Inr t" by simp
  from handleIncrementExtra_frame [OF this] assms(2) show ?thesis by auto
next
  case (DecrementExtra i)
  with assms have "handleDecrementExtra i s = Inr t" by simp
  from handleDecrementExtra_frame [OF this] assms(2) show ?thesis by auto
next
  case IncrementFood
  with assms show ?thesis by (auto simp: handleIncrementFood_def)
next
  case DecrementFood
  with assms show ?thesis by (auto simp: handleDecrementFood_def split: if_splits)
next
  case PressFavorite
  with assms show ?thesis by (auto simp: toggleFavorite_press_def)
next
  case (ToggleFavorite r)
  with assms show ?thesis
    by (auto simp: toggleFavorite_def split: response.splits)
next
  case (FinishOrder r)
  with assms show ?thesis
    by (auto simp: handleFinishOrder_def split: response.splits)
qed

lemma run_foodQuantity:
  "run formatValue evs s = Inr t \<Longrightarrow> 1 \<le> foodQuantity s \<Longrightarrow> 1 \<le> foodQuantity t"
proof (induction evs arbitrary: s)
  case Nil
  then show ?case by simp
next
  case (Cons ev evs)
  from Cons.prems(1) obtain u where u: "step formatValue ev s = Inr u"
    and r: "run formatValue evs u = Inr t"
    by (auto split: sum.splits)
  from step_foodQuantity [OF u Cons.prems(2)] have "1 \<le> foodQuantity u" .
  from Cons.IH [OF r this] show ?case .
qed

text \<open>
  C3. In every state a session reaches from the mounted screen, the food quantity is at
  least 1, so never 0: \<open>handleDecrementFood\<close> subtracts 1 and stops at 1 (from 1 it
  leaves the state as it is), and \<open>handleIncrementFood\<close> adds 1 without a condition.
\<close>

theorem foodQuantity_at_least_one:
  assumes "run formatValue evs initial_state = Inr s"
  shows "1 \<le> foodQuantity s \<and> foodQuantity s \<noteq> 0
       \<and> foodQuantity (handleDecrementFood s) = max 1 (foodQuantity s - 1)
       \<and> foodQuantity (handleIncrementFood s) = foodQuantity s + 1
       \<and> (foodQuantity s = 1 \<longrightarrow> handleDecrementFood s = s)"
proof -
  have "1 \<le> foodQuantity initial_state" by (simp add: initial_state_def)
  from run_foodQuantity [OF assms this] show ?thesis
    by (simp add: handleDecrementFood_def handleIncrementFood_def)
qed

theorem foodQuantity_at_least_one_witness:
  "run scenario_formatValue [DecrementFood, IncrementFood, DecrementFood, DecrementFood] initial_state
     = Inr initial_state
   \<and> foodQuantity initial_state = 1
   \<and> handleDecrementFood initial_state = initial_state
   \<and> foodQuantity (handleDecrementFood initial_state) = 1
   \<and> foodQuantity (handleIncrementFood initial_state) = 2"
  using foodQuantity_at_least_one
    [of scenario_formatValue "[DecrementFood, IncrementFood, DecrementFood, DecrementFood]" initial_state]
  by (simp add: initial_state_def handleDecrementFood_def handleIncrementFood_def)

subsection \<open>Sequences of presses on one extra\<close>

text \<open>
  C2, amended. For every sequence of increment and decrement calls on an extra that is in
  the ledger with quantity 0, every call returns, the quantity is at least 0 after every
  prefix of the sequence, and the final quantity is the one the ledger of section 4.1
  computes in call order, where a decrement at 0 changes nothing. This is the greatest
  value of increments minus decrements over the suffixes of the sequence (the empty
  suffix counts 0), hence at least \<open>max 0 (net cs)\<close>; it is not \<open>max 0 (net cs)\<close> in
  general, because a decrement at quantity 0 is dropped and not owed.
\<close>

theorem ledger_calls_quantity:
  assumes "findIndex (\<lambda>item. extra_id item = i) (extras s) = int k"
    and "quantity (extras s ! k) = 0"
  shows "\<exists>s'. ledger_calls i cs s = Inr s'
           \<and> findIndex (\<lambda>item. extra_id item = i) (extras s') = int k
           \<and> quantity (extras s' ! k) = ledger_quantity cs 0
           \<and> quantity (extras s' ! k) = Max (net ` set (suffixes cs))
           \<and> max 0 (net cs) \<le> quantity (extras s' ! k)
           \<and> (\<forall>n\<le>length cs. \<exists>t. ledger_calls i (take n cs) s = Inr t
                                   \<and> 0 \<le> quantity (extras t ! k))"
proof -
  have q0: "0 \<le> quantity (extras s ! k)" using assms(2) by simp
  from ledger_calls_refines [OF assms(1) q0, of cs] obtain s'
    where s': "ledger_calls i cs s = Inr s'"
      and idx: "findIndex (\<lambda>item. extra_id item = i) (extras s') = int k"
      and q: "quantity (extras s' ! k) = ledger_quantity cs 0"
    using assms(2) by auto
  have m: "ledger_quantity cs 0 = max (net cs) (Max (net ` set (suffixes cs)))"
    using ledger_quantity_suffix_max [of 0 cs] by simp
  have le: "net cs \<le> Max (net ` set (suffixes cs))"
    by (rule net_le_Max_suffixes)
  have eq: "ledger_quantity cs 0 = Max (net ` set (suffixes cs))"
    using m le by simp
  have nonneg: "0 \<le> ledger_quantity cs 0"
    by (rule ledger_quantity_nonneg) simp
  have pre: "\<exists>t. ledger_calls i (take n cs) s = Inr t \<and> 0 \<le> quantity (extras t ! k)" for n
  proof -
    from ledger_calls_refines [OF assms(1) q0, of "take n cs"] obtain t
      where "ledger_calls i (take n cs) s = Inr t"
        and "quantity (extras t ! k) = ledger_quantity (take n cs) 0"
      using assms(2) by auto
    moreover have "0 \<le> ledger_quantity (take n cs) 0"
      by (rule ledger_quantity_nonneg) simp
    ultimately show ?thesis by simp
  qed
  from s' idx q eq le nonneg pre show ?thesis by simp
qed

theorem ledger_calls_quantity_witness:
  "findIndex (\<lambda>item. extra_id item = 11) (extras scenario_state) = int 0
   \<and> quantity (extras scenario_state ! 0) = 0
   \<and> (\<exists>s'. ledger_calls 11 [Decrement, Increment, Increment, Decrement, Increment] scenario_state = Inr s'
           \<and> quantity (extras s' ! 0) = 2)"
proof -
  have a: "findIndex (\<lambda>item. extra_id item = 11) (extras scenario_state) = int 0"
    by (simp add: scenario_state_def scenario_food_def loadFood_def initial_state_def)
  have b: "quantity (extras scenario_state ! 0) = 0"
    by (simp add: scenario_state_def scenario_food_def loadFood_def initial_state_def)
  from ledger_calls_quantity [OF a b, of "[Decrement, Increment, Increment, Decrement, Increment]"]
  obtain s' where "ledger_calls 11 [Decrement, Increment, Increment, Decrement, Increment] scenario_state = Inr s'"
    and "quantity (extras s' ! 0) = ledger_quantity [Decrement, Increment, Increment, Decrement, Increment] 0"
    by blast
  then show ?thesis using a b by simp
qed

text \<open>
  The claim as written fails on decrement, then increment: the quantity is 1, and the
  number of increments minus the number of decrements is 0.
\<close>

theorem ledger_calls_counterexample:
  "ledger_calls 11 [Decrement, Increment] scenario_state
     = Inr (scenario_state\<lparr>extras := [\<lparr>extra_id = 11, extra_name = [], extra_value = 2, quantity = 1\<rparr>]\<rparr>)
   \<and> quantity (extras scenario_state ! 0) = 0
   \<and> max 0 (net [Decrement, Increment]) = 0"
  by (simp add: scenario_state_def scenario_food_def loadFood_def initial_state_def
      handleIncrementExtra_def handleDecrementExtra_def setExtras_def incrementUpdater_def
      elemAt_def slice_def net_def)

subsection \<open>The frame of the ledger handlers\<close>

text \<open>
  C10. For an identifier that is in the ledger, \<open>handleIncrementExtra\<close> and
  \<open>handleDecrementExtra\<close> both return, and the ledger they leave has the length of
  the old one and, position by position, its identifiers, names and values; only the
  first extra with that identifier (position \<open>k\<close>) can differ, in its quantity, so
  every extra with another identifier is unchanged. The food, the food quantity and the
  favorite flag are unchanged.
\<close>

theorem extra_handlers_frame:
  assumes "\<exists>x\<in>set (extras s). extra_id x = i"
  shows "\<exists>k t u. k < length (extras s) \<and> extra_id (extras s ! k) = i
           \<and> handleIncrementExtra i s = Inr t \<and> handleDecrementExtra i s = Inr u
           \<and> (\<forall>s'\<in>{t, u}.
                 length (extras s') = length (extras s)
               \<and> (\<forall>j<length (extras s).
                     extra_id (extras s' ! j) = extra_id (extras s ! j)
                   \<and> extra_name (extras s' ! j) = extra_name (extras s ! j)
                   \<and> extra_value (extras s' ! j) = extra_value (extras s ! j)
                   \<and> (j \<noteq> k \<longrightarrow> extras s' ! j = extras s ! j)
                   \<and> (extra_id (extras s ! j) \<noteq> i \<longrightarrow> extras s' ! j = extras s ! j))
               \<and> food s' = food s \<and> foodQuantity s' = foodQuantity s
               \<and> isFavorite s' = isFavorite s)"
proof -
  from findIndex_present [OF assms] obtain k
    where idx: "findIndex (\<lambda>item. extra_id item = i) (extras s) = int k" ..
  from findIndex_found [OF idx] have k: "k < length (extras s)" and id: "extra_id (extras s ! k) = i"
    by simp_all
  define frame where "frame s' \<longleftrightarrow>
      length (extras s') = length (extras s)
    \<and> (\<forall>j<length (extras s).
          extra_id (extras s' ! j) = extra_id (extras s ! j)
        \<and> extra_name (extras s' ! j) = extra_name (extras s ! j)
        \<and> extra_value (extras s' ! j) = extra_value (extras s ! j)
        \<and> (j \<noteq> k \<longrightarrow> extras s' ! j = extras s ! j)
        \<and> (extra_id (extras s ! j) \<noteq> i \<longrightarrow> extras s' ! j = extras s ! j))
    \<and> food s' = food s \<and> foodQuantity s' = foodQuantity s \<and> isFavorite s' = isFavorite s" for s' :: state
  have upd: "frame (s\<lparr>extras := (extras s)[k := (extras s ! k)\<lparr>quantity := q\<rparr>]\<rparr>)" for q
    unfolding frame_def using k id by (auto simp: nth_list_update)
  have same: "frame s"
    unfolding frame_def by simp
  have "\<exists>t. handleIncrementExtra i s = Inr t \<and> frame t"
    using handleIncrementExtra_found [OF idx] upd by simp
  moreover have "\<exists>u. handleDecrementExtra i s = Inr u \<and> frame u"
    using handleDecrementExtra_found [OF idx] upd same by (cases "0 < quantity (extras s ! k)") simp_all
  ultimately obtain t u where "handleIncrementExtra i s = Inr t" "frame t"
    "handleDecrementExtra i s = Inr u" "frame u"
    by blast
  with k id show ?thesis
    unfolding frame_def by blast
qed

theorem extra_handlers_frame_witness:
  "11 \<in> set (map extra_id (extras scenario_state))
   \<and> (\<exists>t u. handleIncrementExtra 11 scenario_state = Inr t
           \<and> handleDecrementExtra 11 scenario_state = Inr u
           \<and> length (extras t) = 1 \<and> length (extras u) = 1
           \<and> food t = Some (scenario_food\<lparr>formattedPrice := ''10.00''\<rparr>) \<and> food u = Some (scenario_food\<lparr>formattedPrice := ''10.00''\<rparr>)
           \<and> foodQuantity t = 1 \<and> foodQuantity u = 1)"
proof -
  have a: "\<exists>x\<in>set (extras scenario_state). extra_id x = 11"
    by (simp add: scenario_state_def scenario_food_def loadFood_def initial_state_def)
  have m: "11 \<in> set (map extra_id (extras scenario_state))"
    by (simp add: scenario_state_def scenario_food_def loadFood_def initial_state_def)
  have b: "length (extras scenario_state) = 1" "foodQuantity scenario_state = 1"
    "food scenario_state = Some (scenario_food\<lparr>formattedPrice := ''10.00''\<rparr>)"
    by (simp_all add: scenario_state_def scenario_food_def scenario_formatValue_def loadFood_def
        initial_state_def)
  from extra_handlers_frame [OF a] obtain k t u
    where t: "handleIncrementExtra 11 scenario_state = Inr t"
      and u: "handleDecrementExtra 11 scenario_state = Inr u"
      and fr: "\<forall>s'\<in>{t, u}.
                 length (extras s') = length (extras scenario_state)
               \<and> (\<forall>j<length (extras scenario_state).
                     extra_id (extras s' ! j) = extra_id (extras scenario_state ! j)
                   \<and> extra_name (extras s' ! j) = extra_name (extras scenario_state ! j)
                   \<and> extra_value (extras s' ! j) = extra_value (extras scenario_state ! j)
                   \<and> (j \<noteq> k \<longrightarrow> extras s' ! j = extras scenario_state ! j)
                   \<and> (extra_id (extras scenario_state ! j) \<noteq> 11 \<longrightarrow> extras s' ! j = extras scenario_state ! j))
               \<and> food s' = food scenario_state \<and> foodQuantity s' = foodQuantity scenario_state
               \<and> isFavorite s' = isFavorite scenario_state"
    by (elim exE conjE)
  from fr have "length (extras t) = 1 \<and> food t = Some (scenario_food\<lparr>formattedPrice := ''10.00''\<rparr>) \<and> foodQuantity t = 1"
    unfolding b by simp
  moreover from fr have "length (extras u) = 1 \<and> food u = Some (scenario_food\<lparr>formattedPrice := ''10.00''\<rparr>) \<and> foodQuantity u = 1"
    unfolding b by simp
  ultimately show ?thesis using m t u by simp
qed

subsection \<open>An identifier outside the ledger\<close>

text \<open>
  C4, amended. For an identifier that no extra of the ledger has, \<open>findIndex\<close> returns
  \<open>-1\<close> and \<open>handleIncrementExtra\<close> does not return a state: the updater reads
  \<open>oldState[-1].quantity\<close>, which throws a \<open>TypeError\<close>, and no ledger is stored. The
  screen calls the handler only with the identifier of an extra it has rendered.
\<close>

theorem handleIncrementExtra_absent:
  assumes "\<forall>x\<in>set (extras s). extra_id x \<noteq> i"
  shows "findIndex (\<lambda>item. extra_id item = i) (extras s) = - 1
       \<and> handleIncrementExtra i s = Inl TypeError"
proof -
  from assms have "findIndex (\<lambda>item. extra_id item = i) (extras s) = - 1"
    by (intro findIndex_absent) simp
  then show ?thesis
    by (simp add: handleIncrementExtra_def setExtras_def incrementUpdater_def elemAt_neg)
qed

theorem handleIncrementExtra_absent_witness:
  "99 \<notin> set (map extra_id (extras scenario_state))
   \<and> findIndex (\<lambda>item. extra_id item = 99) (extras scenario_state) = - 1
   \<and> handleIncrementExtra 99 scenario_state = Inl TypeError"
  using handleIncrementExtra_absent [of scenario_state 99]
  by (simp add: scenario_state_def scenario_food_def loadFood_def initial_state_def)

text \<open>
  The claim as written, a silent no-op that leaves the state as it is, fails for the
  identifier 99 in the scenario.
\<close>

theorem handleIncrementExtra_absent_counterexample:
  "99 \<notin> set (map extra_id (extras scenario_state))
   \<and> handleIncrementExtra 99 scenario_state = Inl TypeError
   \<and> handleIncrementExtra 99 scenario_state \<noteq> Inr scenario_state"
  by (simp add: scenario_state_def scenario_food_def loadFood_def initial_state_def
      handleIncrementExtra_def setExtras_def incrementUpdater_def elemAt_def)

subsection \<open>Loading\<close>

text \<open>
  C5, amended. Whatever the state before, a successful load replaces the ledger by the
  extras of the fetched food, each with quantity 0, so that no quantity of an extra
  carries over. It does not set the food quantity, which keeps the value it had before
  the load; that value is 1 when the load is the first thing to happen to the mounted
  screen.
\<close>

theorem loadFood_resets_extras:
  "extras (loadFood formatValue (Resolved f) s) = map (\<lambda>item. item\<lparr>quantity := 0\<rparr>) (food_extras f)
   \<and> (\<forall>x\<in>set (extras (loadFood formatValue (Resolved f) s)). quantity x = 0)
   \<and> foodQuantity (loadFood formatValue (Resolved f) s) = foodQuantity s
   \<and> foodQuantity (loadFood formatValue (Resolved f) initial_state) = 1"
  by (auto simp: loadFood_def Let_def initial_state_def)

theorem loadFood_resets_extras_witness:
  "extras scenario_order = [\<lparr>extra_id = 11, extra_name = [], extra_value = 2, quantity = 3\<rparr>]
   \<and> extras (loadFood scenario_formatValue (Resolved scenario_food) scenario_order)
       = [\<lparr>extra_id = 11, extra_name = [], extra_value = 2, quantity = 0\<rparr>]
   \<and> foodQuantity (loadFood scenario_formatValue (Resolved scenario_food) scenario_order) = 2"
  using loadFood_resets_extras [of scenario_formatValue scenario_food scenario_order]
  by (simp add: scenario_food_def scenario_order_def)

text \<open>
  The claim as written fails where the user presses the plus button of the food before
  the load settles: the food quantity is 2 after the load.
\<close>

theorem loadFood_foodQuantity_counterexample:
  "run scenario_formatValue [IncrementFood, LoadFood (Resolved scenario_food)] initial_state
     = Inr (scenario_state\<lparr>foodQuantity := 2\<rparr>)
   \<and> foodQuantity (scenario_state\<lparr>foodQuantity := 2\<rparr>) \<noteq> 1"
  by (simp add: scenario_state_def loadFood_def handleIncrementFood_def initial_state_def)

text \<open>
  C9. When the fetch of the food is rejected, \<open>loadFood\<close> leaves the state as it is:
  the food, the ledger and the food quantity are those from before, and a screen that
  was not loaded stays without a food and with an empty ledger.
\<close>

theorem loadFood_rejected:
  "loadFood formatValue Rejected s = s
   \<and> food (loadFood formatValue Rejected s) = food s
   \<and> extras (loadFood formatValue Rejected s) = extras s
   \<and> foodQuantity (loadFood formatValue Rejected s) = foodQuantity s
   \<and> food (loadFood formatValue Rejected initial_state) = None
   \<and> extras (loadFood formatValue Rejected initial_state) = []"
  by (simp add: loadFood_def initial_state_def)

subsection \<open>The order\<close>

text \<open>
  C6, amended. In every state with a loaded food, the request \<open>handleFinishOrder\<close>
  sends is a post of the object \<open>{...food, extras}\<close>: the identifier, name, description,
  price, image and formatted price of the food, and the whole ledger with its current
  quantities, those that are 0 included, in ledger order. The food quantity is not part
  of the object: the request is the same whatever the food quantity. Submitting leaves
  the state as it is.
\<close>

theorem handleFinishOrder_payload:
  assumes "food s = Some f"
  shows "\<exists>p. handleFinishOrder_request s = PostOrder (Order p)
           \<and> food_id p = food_id f \<and> food_name p = food_name f
           \<and> description p = description f \<and> price p = price f
           \<and> image_url p = image_url f \<and> formattedPrice p = formattedPrice f
           \<and> food_extras p = extras s
           \<and> handleFinishOrder_request (s\<lparr>foodQuantity := n\<rparr>) = handleFinishOrder_request s
           \<and> handleFinishOrder orderResponse s = s"
  using assms
  by (cases orderResponse) (simp_all add: handleFinishOrder_request_def handleFinishOrder_def)

theorem handleFinishOrder_payload_witness:
  "food scenario_order = Some (scenario_food\<lparr>formattedPrice := ''10.00''\<rparr>)
   \<and> (\<exists>p. handleFinishOrder_request scenario_order = PostOrder (Order p)
         \<and> food_id p = 1 \<and> price p = 10 \<and> formattedPrice p = ''10.00''
         \<and> food_extras p = [\<lparr>extra_id = 11, extra_name = [], extra_value = 2, quantity = 3\<rparr>])"
proof -
  have a: "food scenario_order = Some (scenario_food\<lparr>formattedPrice := ''10.00''\<rparr>)"
    by (simp add: scenario_order_def)
  have b: "extras scenario_order
             = [\<lparr>extra_id = 11, extra_name = [], extra_value = 2, quantity = 3\<rparr>]"
    by (simp add: scenario_order_def)
  have c: "food_id (scenario_food\<lparr>formattedPrice := ''10.00''\<rparr>) = 1"
    "price (scenario_food\<lparr>formattedPrice := ''10.00''\<rparr>) = 10"
    "formattedPrice (scenario_food\<lparr>formattedPrice := ''10.00''\<rparr>) = ''10.00''"
    by (simp_all add: scenario_food_def)
  from handleFinishOrder_payload [OF a, of 1 Rejected] obtain p
    where "handleFinishOrder_request scenario_order = PostOrder (Order p)"
      and "food_id p = food_id (scenario_food\<lparr>formattedPrice := ''10.00''\<rparr>)"
      and "price p = price (scenario_food\<lparr>formattedPrice := ''10.00''\<rparr>)"
      and "formattedPrice p = formattedPrice (scenario_food\<lparr>formattedPrice := ''10.00''\<rparr>)"
      and "food_extras p = extras scenario_order"
    by blast
  with a b c show ?thesis by simp
qed

text \<open>
  The claim as written wants the current food quantity in the payload: two states of the
  scenario that differ in the food quantity alone send the same request.
\<close>

theorem handleFinishOrder_counterexample:
  "handleFinishOrder_request scenario_order
     = handleFinishOrder_request (scenario_order\<lparr>foodQuantity := 1\<rparr>)
   \<and> foodQuantity scenario_order \<noteq> foodQuantity (scenario_order\<lparr>foodQuantity := 1\<rparr>)"
  by (simp add: handleFinishOrder_request_def scenario_order_def)

subsection \<open>The favorite flag\<close>

lemma step_isFavorite:
  assumes "step formatValue ev s = Inr t"
    and "\<forall>r. ev \<noteq> ToggleFavorite r" and "\<forall>c r. ev \<noteq> CheckFavorite c r"
  shows "isFavorite t = isFavorite s"
proof (cases ev)
  case (LoadFood r)
  with assms(1) show ?thesis
    by (auto simp: loadFood_def Let_def split: response.splits)
next
  case (CheckFavorite c r)
  with assms(3) show ?thesis by simp
next
  case (IncrementExtra i)
  with assms(1) have "handleIncrementExtra i s = Inr t" by simp
  from handleIncrementExtra_frame [OF this] show ?thesis by auto
next
  case (DecrementExtra i)
  with assms(1) have "handleDecrementExtra i s = Inr t" by simp
  from handleDecrementExtra_frame [OF this] show ?thesis by auto
next
  case IncrementFood
  with assms(1) show ?thesis by (auto simp: handleIncrementFood_def)
next
  case DecrementFood
  with assms(1) show ?thesis by (auto simp: handleDecrementFood_def split: if_splits)
next
  case PressFavorite
  with assms(1) show ?thesis by (auto simp: toggleFavorite_press_def)
next
  case (ToggleFavorite r)
  with assms(2) show ?thesis by simp
next
  case (FinishOrder r)
  with assms(1) show ?thesis
    by (auto simp: handleFinishOrder_def split: response.splits)
qed

lemma run_isFavorite:
  assumes "run formatValue evs s = Inr t"
    and "\<forall>ev\<in>set evs. (\<forall>r. ev \<noteq> ToggleFavorite r) \<and> (\<forall>c r. ev \<noteq> CheckFavorite c r)"
  shows "isFavorite t = isFavorite s"
  using assms
proof (induction evs arbitrary: s)
  case Nil
  then show ?case by simp
next
  case (Cons ev evs)
  from Cons.prems(1) obtain u where u: "step formatValue ev s = Inr u"
    and r: "run formatValue evs u = Inr t"
    by (auto split: sum.splits)
  from Cons.prems(2) have ev: "\<forall>r. ev \<noteq> ToggleFavorite r" "\<forall>c r. ev \<noteq> CheckFavorite c r"
    and rest: "\<forall>ev\<in>set evs. (\<forall>r. ev \<noteq> ToggleFavorite r) \<and> (\<forall>c r. ev \<noteq> CheckFavorite c r)"
    by simp_all
  from step_isFavorite [OF u ev] have "isFavorite u = isFavorite s" .
  with Cons.IH [OF r rest] show ?case by simp
qed

text \<open>
  C7, amended. The toggle is not optimistic. On the press, \<open>toggleFavorite\<close> issues the
  remote write for the flag as it stands (remove-favorite when the flag is set,
  add-favorite when it is not) and sets nothing: while the write is pending the flag is
  the one from before the press, whatever else happens on the screen meanwhile, short of
  another favorite write or favorites check settling. The flag is flipped only when the
  write resolves. When the write is rejected the flag is the one from before the press:
  it was never flipped, and there is nothing to roll back.
\<close>

theorem toggleFavorite_after_write:
  "snd (toggleFavorite_press s) = s
   \<and> fst (toggleFavorite_press s) = toggleFavorite_request s
   \<and> isFavorite (snd (toggleFavorite_press s)) = isFavorite s
   \<and> (\<forall>evs t. run formatValue (PressFavorite # evs) s = Inr t
              \<and> (\<forall>ev\<in>set evs. (\<forall>r. ev \<noteq> ToggleFavorite r) \<and> (\<forall>c r. ev \<noteq> CheckFavorite c r))
            \<longrightarrow> isFavorite t = isFavorite s
                \<and> isFavorite (toggleFavorite Rejected t) = isFavorite s
                \<and> isFavorite (toggleFavorite (Resolved u) t) = (\<not> isFavorite s))
   \<and> toggleFavorite Rejected s = s
   \<and> toggleFavorite (Resolved u) s = s\<lparr>isFavorite := \<not> isFavorite s\<rparr>
   \<and> isFavorite (toggleFavorite (Resolved u) s) = (\<not> isFavorite s)
   \<and> toggleFavorite_request (s\<lparr>isFavorite := True\<rparr>) = DeleteFavorite (map_option food_id (food s))
   \<and> toggleFavorite_request (s\<lparr>isFavorite := False\<rparr>) = PostFavorite (food s)"
proof -
  have pending: "isFavorite t = isFavorite s
      \<and> isFavorite (toggleFavorite Rejected t) = isFavorite s
      \<and> isFavorite (toggleFavorite (Resolved u) t) = (\<not> isFavorite s)"
    if r: "run formatValue (PressFavorite # evs) s = Inr t"
      and quiet: "\<forall>ev\<in>set evs. (\<forall>r. ev \<noteq> ToggleFavorite r) \<and> (\<forall>c r. ev \<noteq> CheckFavorite c r)"
    for evs t
  proof -
    from r have "run formatValue evs s = Inr t"
      by (simp add: toggleFavorite_press_def)
    from run_isFavorite [OF this quiet] show ?thesis
      by (simp add: toggleFavorite_def)
  qed
  have quiet: "\<forall>evs t. run formatValue (PressFavorite # evs) s = Inr t
              \<and> (\<forall>ev\<in>set evs. (\<forall>r. ev \<noteq> ToggleFavorite r) \<and> (\<forall>c r. ev \<noteq> CheckFavorite c r))
            \<longrightarrow> isFavorite t = isFavorite s
                \<and> isFavorite (toggleFavorite Rejected t) = isFavorite s
                \<and> isFavorite (toggleFavorite (Resolved u) t) = (\<not> isFavorite s)"
    by (intro allI impI, elim conjE, rule pending)
  have press: "snd (toggleFavorite_press s) = s"
    "fst (toggleFavorite_press s) = toggleFavorite_request s"
    "isFavorite (snd (toggleFavorite_press s)) = isFavorite s"
    by (simp_all add: toggleFavorite_press_def)
  have settle: "toggleFavorite Rejected s = s"
    "toggleFavorite (Resolved u) s = s\<lparr>isFavorite := \<not> isFavorite s\<rparr>"
    "isFavorite (toggleFavorite (Resolved u) s) = (\<not> isFavorite s)"
    by (simp_all add: toggleFavorite_def)
  have request: "toggleFavorite_request (s\<lparr>isFavorite := True\<rparr>) = DeleteFavorite (map_option food_id (food s))"
    "toggleFavorite_request (s\<lparr>isFavorite := False\<rparr>) = PostFavorite (food s)"
    by (simp_all add: toggleFavorite_request_def)
  show ?thesis
    by (intro conjI press settle request quiet)
qed

theorem toggleFavorite_after_write_witness:
  "run scenario_formatValue [PressFavorite, IncrementFood, IncrementExtra 11, FinishOrder Rejected]
       scenario_state
     = Inr (scenario_state\<lparr>extras := [\<lparr>extra_id = 11, extra_name = [], extra_value = 2, quantity = 1\<rparr>],
                           foodQuantity := 2\<rparr>)
   \<and> \<not> isFavorite scenario_state
   \<and> \<not> isFavorite (scenario_state\<lparr>extras := [\<lparr>extra_id = 11, extra_name = [], extra_value = 2, quantity = 1\<rparr>],
                                    foodQuantity := 2\<rparr>)
   \<and> \<not> isFavorite (toggleFavorite Rejected
          (scenario_state\<lparr>extras := [\<lparr>extra_id = 11, extra_name = [], extra_value = 2, quantity = 1\<rparr>],
                           foodQuantity := 2\<rparr>))
   \<and> isFavorite (toggleFavorite (Resolved ())
          (scenario_state\<lparr>extras := [\<lparr>extra_id = 11, extra_name = [], extra_value = 2, quantity = 1\<rparr>],
                           foodQuantity := 2\<rparr>))"
proof -
  let ?evs = "[IncrementFood, IncrementExtra 11, FinishOrder Rejected]"
  let ?t = "scenario_state\<lparr>extras := [\<lparr>extra_id = 11, extra_name = [], extra_value = 2, quantity = 1\<rparr>],
                           foodQuantity := 2\<rparr>"
  have reached: "run scenario_formatValue (PressFavorite # ?evs) scenario_state = Inr ?t"
    by (simp add: scenario_state_def scenario_food_def loadFood_def initial_state_def
        toggleFavorite_press_def handleIncrementFood_def handleIncrementExtra_def setExtras_def
        incrementUpdater_def elemAt_def slice_def handleFinishOrder_def)
  have quiet: "\<forall>ev\<in>set ?evs. (\<forall>r. ev \<noteq> ToggleFavorite r) \<and> (\<forall>c r. ev \<noteq> CheckFavorite c r)"
    by simp
  have before: "\<not> isFavorite scenario_state"
    by (simp add: scenario_state_def loadFood_def initial_state_def)
  from toggleFavorite_after_write [where s = scenario_state and formatValue = scenario_formatValue
      and u = "()"]
  have "\<forall>evs t. run scenario_formatValue (PressFavorite # evs) scenario_state = Inr t
              \<and> (\<forall>ev\<in>set evs. (\<forall>r. ev \<noteq> ToggleFavorite r) \<and> (\<forall>c r. ev \<noteq> CheckFavorite c r))
            \<longrightarrow> isFavorite t = isFavorite scenario_state
                \<and> isFavorite (toggleFavorite Rejected t) = isFavorite scenario_state
                \<and> isFavorite (toggleFavorite (Resolved ()) t) = (\<not> isFavorite scenario_state)"
    by (elim conjE)
  then have "isFavorite ?t = isFavorite scenario_state
                \<and> isFavorite (toggleFavorite Rejected ?t) = isFavorite scenario_state
                \<and> isFavorite (toggleFavorite (Resolved ()) ?t) = (\<not> isFavorite scenario_state)"
    using reached quiet by blast
  with reached before show ?thesis by simp
qed

text \<open>
  The claim as written, a flag flipped at once that stays flipped when the write fails,
  fails in the scenario: the flag is not set before the toggle, not set while the write
  is pending, and not set after the rejected write.
\<close>

theorem toggleFavorite_rejected_counterexample:
  "\<not> isFavorite scenario_state
   \<and> \<not> isFavorite (snd (toggleFavorite_press scenario_state))
   \<and> \<not> isFavorite (toggleFavorite Rejected (snd (toggleFavorite_press scenario_state)))
   \<and> \<not> isFavorite (toggleFavorite Rejected scenario_state)"
  by (simp add: toggleFavorite_def toggleFavorite_press_def scenario_state_def loadFood_def
      initial_state_def)

text \<open>
  C8. Two toggles whose remote writes both resolve give back the state they started
  from, so the flag returns to \<open>Favorite\<close> from \<open>Favorite\<close> and to \<open>NotFavorite\<close> from
  \<open>NotFavorite\<close>; the write of the second toggle is the opposite of the first one's.
\<close>

theorem toggleFavorite_twice:
  "toggleFavorite (Resolved u') (toggleFavorite (Resolved u) s) = s
   \<and> isFavorite (toggleFavorite (Resolved u') (toggleFavorite (Resolved u) s)) = isFavorite s
   \<and> toggleFavorite_request (toggleFavorite (Resolved u) (s\<lparr>isFavorite := True\<rparr>))
       = PostFavorite (food s)
   \<and> toggleFavorite_request (toggleFavorite (Resolved u) (s\<lparr>isFavorite := False\<rparr>))
       = DeleteFavorite (map_option food_id (food s))"
  by (simp add: toggleFavorite_def toggleFavorite_request_def)

end
